theory Spec2Isabelle
  imports Main
begin

section \<open>Conversation thread builder (client-twitter/utils.ts)\<close>

text \<open>
  \<open>TweetData\<close> extends the platform's tweet object with \<open>username\<close> and \<open>name\<close>.
  Only the fields that \<open>buildConversationThread\<close> reads are kept. The optional field
  \<open>in_reply_to_user_id\<close> is the parent reference the builder walks along.
\<close>

record TweetData =
  tweet_id :: string
  tweet_text :: string
  author_id :: string
  conversation_id :: string
  in_reply_to_user_id :: "string option"
  created_at :: string
  username :: string
  display_name :: string

record TwitterProfile =
  profile_id :: string
  profile_username :: string

text \<open>
  What \<open>await client.getTweet(ref)\<close> can do inside the \<open>try\<close> block: return a tweet,
  return a falsy value, or reject.
\<close>

datatype fetch_result = Fetched TweetData | NoTweet | FetchFailed

text \<open>
  The part of \<open>ClientBase\<close> and of its runtime that the builder uses. \<open>profile\<close> is
  \<open>TwitterProfile | null\<close> in the source. \<open>stringToUuid\<close> and the date parser are
  library functions, taken as parameters.
\<close>

record ClientBase =
  agentId :: string
  profile :: "TwitterProfile option"
  getTweet :: "string \<Rightarrow> fetch_result"
  stringToUuid :: "string \<Rightarrow> string"
  getTime :: "string \<Rightarrow> int"

record Memory =
  mem_id :: string
  mem_agentId :: string
  mem_text :: string
  mem_source :: string
  mem_url :: string
  mem_inReplyTo :: "string option"
  mem_createdAt :: int
  mem_roomId :: string
  mem_userId :: string

text \<open>
  The durable store behind \<open>runtime.messageManager\<close> and \<open>runtime.ensureConnection\<close>.
  It is an external collaborator: \<open>createMemory\<close> is modelled as appending a row with
  no uniqueness check of its own, \<open>getMemoryById\<close> as returning the first row with the
  identifier, so that whatever deduplication there is comes from the builder.
\<close>

record store =
  memories :: "Memory list"
  connections :: "(string \<times> string \<times> string \<times> string \<times> string) list"

definition getMemoryById :: "store \<Rightarrow> string \<Rightarrow> Memory option" where
  "getMemoryById db k = find (\<lambda>m. mem_id m = k) (memories db)"

definition createMemory :: "Memory \<Rightarrow> store \<Rightarrow> store" where
  "createMemory m db = db\<lparr>memories := memories db @ [m]\<rparr>"

definition ensureConnection ::
  "string \<Rightarrow> string \<Rightarrow> string \<Rightarrow> string \<Rightarrow> string \<Rightarrow> store \<Rightarrow> store" where
  "ensureConnection userId roomId uname dname src db =
     db\<lparr>connections := connections db @ [(userId, roomId, uname, dname, src)]\<rparr>"

text \<open>JavaScript truthiness of an optional string: defined and not empty.\<close>

definition truthy :: "string option \<Rightarrow> bool" where
  "truthy v = (case v of None \<Rightarrow> False | Some s \<Rightarrow> s \<noteq> [])"

definition memory_key :: "ClientBase \<Rightarrow> TweetData \<Rightarrow> string" where
  "memory_key c t = stringToUuid c (tweet_id t @ ''-'' @ agentId c)"

datatype js_error = TypeError

text \<open>
  The block "Handle memory storage" of \<open>processThread\<close>. The object passed to
  \<open>createMemory\<close> reads \<open>client.profile!.id\<close>; with a null profile that read throws
  after \<open>ensureConnection\<close> has run and before \<open>createMemory\<close> is called.
\<close>

definition handle_memory_storage :: "ClientBase \<Rightarrow> TweetData \<Rightarrow> store \<Rightarrow> bool \<times> store" where
  "handle_memory_storage c currentTweet db0 =
     (case getMemoryById db0 (memory_key c currentTweet) of
        Some memory \<Rightarrow> (False, db0)
      | None \<Rightarrow>
          (let roomId = stringToUuid c (conversation_id currentTweet @ ''-'' @ agentId c);
               userId = stringToUuid c (author_id currentTweet);
               db1 = ensureConnection userId roomId (username currentTweet)
                       (display_name currentTweet) ''twitter'' db0
           in case profile c of
                None \<Rightarrow> (True, db1)
              | Some p \<Rightarrow>
                  (False, createMemory
                    \<lparr>mem_id = memory_key c currentTweet,
                     mem_agentId = agentId c,
                     mem_text = tweet_text currentTweet,
                     mem_source = ''twitter'',
                     mem_url = tweet_id currentTweet,
                     mem_inReplyTo =
                       (if truthy (in_reply_to_user_id currentTweet)
                        then Some (stringToUuid c
                               (the (in_reply_to_user_id currentTweet) @ ''-'' @ agentId c))
                        else None),
                     mem_createdAt = getTime c (created_at currentTweet),
                     mem_roomId = roomId,
                     mem_userId =
                       (if author_id currentTweet = profile_id p then agentId c
                        else stringToUuid c (author_id currentTweet))\<rparr>
                    db1)))"

text \<open>
  The closure state of one \<open>buildConversationThread\<close> call (\<open>thread\<close>, \<open>visited\<close>)
  together with the store the call writes to.
\<close>

record builder =
  thread :: "TweetData list"
  visited :: "string set"
  db :: store

text \<open>
  \<open>processThread\<close>. The result pairs a flag (the call rejected) with the state it
  left. The recursive call sits inside the \<open>try\<close> block whose \<open>catch\<close> only logs, so a
  rejection of the recursive call is swallowed there; only the depth-0 call can reject
  \<open>buildConversationThread\<close>. A \<open>TweetData\<close> is never null here (the initial tweet by
  its type, a parent by the check on the fetch result), so the \<open>!currentTweet\<close> branch
  is left out. \<open>maxReplies\<close> and \<open>depth\<close> are natural numbers.
\<close>

function processThread ::
  "ClientBase \<Rightarrow> nat \<Rightarrow> TweetData \<Rightarrow> nat \<Rightarrow> builder \<Rightarrow> bool \<times> builder" where
  "processThread c maxReplies currentTweet depth s =
     (if depth \<ge> maxReplies then (False, s)
      else
        (let m = handle_memory_storage c currentTweet (db s)
         in if fst m then (True, s\<lparr>db := snd m\<rparr>)
            else if tweet_id currentTweet \<in> visited s then (False, s\<lparr>db := snd m\<rparr>)
            else
              (let s2 = s\<lparr>thread := currentTweet # thread s,
                         visited := insert (tweet_id currentTweet) (visited s),
                         db := snd m\<rparr>
               in if truthy (in_reply_to_user_id currentTweet) then
                    (case getTweet c (the (in_reply_to_user_id currentTweet)) of
                       Fetched parentTweet \<Rightarrow>
                         (False, snd (processThread c maxReplies parentTweet (depth + 1) s2))
                     | NoTweet \<Rightarrow> (False, s2)
                     | FetchFailed \<Rightarrow> (False, s2))
                  else (False, s2))))"
  by pat_completeness auto
termination
  by (relation "measure (\<lambda>(c, maxReplies, currentTweet, depth, s). maxReplies - depth)") auto

declare processThread.simps [simp del]

definition buildConversationThread ::
  "TweetData \<Rightarrow> ClientBase \<Rightarrow> nat \<Rightarrow> store \<Rightarrow> (js_error + TweetData list) \<times> store" where
  "buildConversationThread tweet client maxReplies db0 =
     (let r = processThread client maxReplies tweet 0 \<lparr>thread = [], visited = {}, db = db0\<rparr>
      in (if fst r then Inl TypeError else Inr (thread (snd r)), db (snd r)))"

text \<open>
  The invariant of the closure state: the thread has no duplicate id, and every id in
  it is marked visited.
\<close>

definition thread_ok :: "builder \<Rightarrow> bool" where
  "thread_ok s = (distinct (map tweet_id (thread s)) \<and> tweet_id ` set (thread s) \<subseteq> visited s)"

text \<open>The rows of the store under one identifier.\<close>

definition entries :: "store \<Rightarrow> string \<Rightarrow> Memory list" where
  "entries d k = filter (\<lambda>m. mem_id m = k) (memories d)"

text \<open>Concrete tweets, clients and node stores: a two-node cycle and the chain D, C, B, A.\<close>

definition example_tweet :: "string \<Rightarrow> string option \<Rightarrow> TweetData" where
  "example_tweet i parent =
     \<lparr>tweet_id = i, tweet_text = ''gm'', author_id = ''user'', conversation_id = ''conv'',
      in_reply_to_user_id = parent, created_at = ''2025-01-01'', username = ''user'',
      display_name = ''User''\<rparr>"

definition example_client :: "(string \<Rightarrow> fetch_result) \<Rightarrow> ClientBase" where
  "example_client fetch =
     \<lparr>agentId = ''agent'',
      profile = Some \<lparr>profile_id = ''me'', profile_username = ''me''\<rparr>,
      getTweet = fetch, stringToUuid = (\<lambda>s. s), getTime = (\<lambda>s. 0)\<rparr>"

text \<open>
  The client that \<open>generateReply\<close> of the simulate path builds: it is configured
  without access token and secret, so \<open>init()\<close> returns right after \<open>appLogin()\<close>,
  before \<open>this.profile\<close> is set.
\<close>

definition unloaded_client :: "(string \<Rightarrow> fetch_result) \<Rightarrow> ClientBase" where
  "unloaded_client fetch = (example_client fetch)\<lparr>profile := None\<rparr>"

definition cycle_fetch :: "string \<Rightarrow> fetch_result" where
  "cycle_fetch r =
     (if r = ''1'' then Fetched (example_tweet ''1'' (Some ''2''))
      else if r = ''2'' then Fetched (example_tweet ''2'' (Some ''1''))
      else NoTweet)"

definition chain_fetch :: "string \<Rightarrow> fetch_result" where
  "chain_fetch r =
     (if r = ''A'' then Fetched (example_tweet ''A'' None)
      else if r = ''B'' then Fetched (example_tweet ''B'' (Some ''A''))
      else if r = ''C'' then Fetched (example_tweet ''C'' (Some ''B''))
      else if r = ''D'' then Fetched (example_tweet ''D'' (Some ''C''))
      else FetchFailed)"

definition empty_store :: store where
  "empty_store = \<lparr>memories = [], connections = []\<rparr>"

section \<open>Agent supervisor (server.ts)\<close>

datatype grpc_status = INVALID_ARGUMENT | NOT_FOUND | INTERNAL

text \<open>
  What a handler does with its callback: a reply, a structured error (status code and
  error name), or an exception thrown by the handler before the callback is called.
\<close>

datatype 'a rpc = Reply 'a | RpcError grpc_status string | Throws js_error

record TwitterCredentials =
  cred_username :: "string option"
  cred_token :: "string option"
  cred_secret :: "string option"

record StartAgentRequest =
  character :: "string option"
  twitter :: "TwitterCredentials option"

text \<open>
  A spawned child: the pid the operating system gave it (\<open>child.pid\<close> is undefined when
  the spawn failed), the environment it was started with, and whether \<open>kill()\<close> was
  called on it.
\<close>

record ChildProcess =
  child_pid :: "nat option"
  child_env :: "(string \<times> string) list"
  killed :: bool

text \<open>
  A registry entry \<open>{ process, status }\<close>; \<open>process\<close> refers to the child by its
  position in the list of spawned children.
\<close>

record AgentEntry =
  process :: nat
  status :: string

record Supervisor =
  agents :: "string \<rightharpoonup> AgentEntry"
  children :: "ChildProcess list"

definition no_agents :: Supervisor where
  "no_agents = \<lparr>agents = Map.empty, children = []\<rparr>"

text \<open>
  The registry is the object literal \<open>{}\<close>, so \<open>agents[pid]\<close> finds the object's own
  properties and, for a key it does not own, the properties it inherits from
  \<open>Object.prototype\<close>. Each inherited value is a function or an object: truthy, and
  without a \<open>process\<close> or \<open>status\<close> property.
\<close>

definition object_prototype_keys :: "string list" where
  "object_prototype_keys =
     [''constructor'', ''__proto__'', ''hasOwnProperty'', ''isPrototypeOf'',
      ''propertyIsEnumerable'', ''toLocaleString'', ''toString'', ''valueOf'',
      ''__defineGetter__'', ''__defineSetter__'', ''__lookupGetter__'', ''__lookupSetter__'']"

datatype property = Own AgentEntry | Inherited | Undefined

definition agents_get :: "Supervisor \<Rightarrow> string \<Rightarrow> property" where
  "agents_get sv key =
     (case agents sv key of
        Some a \<Rightarrow> Own a
      | None \<Rightarrow> if key \<in> set object_prototype_keys then Inherited else Undefined)"

text \<open>\<open>String(child.pid)\<close>: the decimal digits of the pid, or \<open>undefined\<close>.\<close>

definition digit :: "nat \<Rightarrow> char" where
  "digit d = ''0123456789'' ! d"

fun show_nat :: "nat \<Rightarrow> string" where
  "show_nat n = (if n < 10 then [digit n] else show_nat (n div 10) @ [digit (n mod 10)])"

declare show_nat.simps [simp del]

definition String_pid :: "nat option \<Rightarrow> string" where
  "String_pid pid = (case pid of None \<Rightarrow> ''undefined'' | Some n \<Rightarrow> show_nat n)"

text \<open>
  \<open>startAgent\<close>. The second argument is the pid that \<open>spawn\<close> assigns to the child.
\<close>

definition startAgent ::
  "StartAgentRequest \<Rightarrow> nat option \<Rightarrow> Supervisor \<Rightarrow> Supervisor \<times> string rpc" where
  "startAgent req pid sv =
     (if \<not> truthy (character req) \<or> twitter req = None
         \<or> \<not> truthy (cred_username (the (twitter req)))
         \<or> \<not> truthy (cred_token (the (twitter req)))
         \<or> \<not> truthy (cred_secret (the (twitter req)))
      then (sv, RpcError INVALID_ARGUMENT ''MissingRequiredParametersError'')
      else
        (let child = \<lparr>child_pid = pid,
                       child_env =
                         [(''CHARACTER'', the (character req)),
                          (''TWITTER_USERNAME'', the (cred_username (the (twitter req)))),
                          (''TWITTER_ACCESS_TOKEN'', the (cred_token (the (twitter req)))),
                          (''TWITTER_ACCESS_SECRET'', the (cred_secret (the (twitter req))))],
                       killed = False\<rparr>
         in (sv\<lparr>children := children sv @ [child],
                agents := (agents sv)(String_pid pid \<mapsto>
                            \<lparr>process = length (children sv), status = ''running''\<rparr>)\<rparr>,
             Reply (String_pid pid))))"

text \<open>
  The handler \<open>child.on("exit", ...)\<close> that \<open>startAgent\<close> registers, run when the child
  with this pid exits. Its key is a decimal number or \<open>undefined\<close>, never an inherited
  property name.
\<close>

definition child_exit :: "nat option \<Rightarrow> Supervisor \<Rightarrow> Supervisor" where
  "child_exit pid sv =
     (case agents_get sv (String_pid pid) of
        Own a \<Rightarrow> sv\<lparr>agents := (agents sv)(String_pid pid \<mapsto> a\<lparr>status := ''stopped''\<rparr>)\<rparr>
      | Inherited \<Rightarrow> sv
      | Undefined \<Rightarrow> sv)"

definition kill :: "nat \<Rightarrow> ChildProcess list \<Rightarrow> ChildProcess list" where
  "kill h cs = (if h < length cs then cs[h := (cs ! h)\<lparr>killed := True\<rparr>] else cs)"

text \<open>
  \<open>stopAgent\<close>. For an inherited property \<open>agent\<close> is truthy and \<open>agent.process\<close> is
  undefined, so \<open>agent.process.kill()\<close> throws.
\<close>

definition stopAgent :: "string \<Rightarrow> Supervisor \<Rightarrow> Supervisor \<times> bool rpc" where
  "stopAgent pid sv =
     (case agents_get sv pid of
        Own agent \<Rightarrow>
          (sv\<lparr>children := kill (process agent) (children sv),
              agents := (agents sv)(pid \<mapsto> agent\<lparr>status := ''stopped''\<rparr>)\<rparr>,
           Reply True)
      | Inherited \<Rightarrow> (sv, Throws TypeError)
      | Undefined \<Rightarrow> (sv, RpcError NOT_FOUND ''AgentNotFoundError''))"

text \<open>
  \<open>getAgentStatus\<close>. For an inherited property \<open>agent.status\<close> is undefined and the
  handler still replies.
\<close>

definition getAgentStatus :: "string \<Rightarrow> Supervisor \<Rightarrow> (string \<times> string option) rpc" where
  "getAgentStatus pid sv =
     (case agents_get sv pid of
        Own agent \<Rightarrow> Reply (pid, Some (status agent))
      | Inherited \<Rightarrow> Reply (pid, None)
      | Undefined \<Rightarrow> RpcError NOT_FOUND ''AgentNotFoundError'')"

text \<open>A request with every field present except, possibly, the token.\<close>

definition example_request :: "string option \<Rightarrow> StartAgentRequest" where
  "example_request token =
     \<lparr>character = Some ''{}'',
      twitter = Some \<lparr>cred_username = Some ''bot'', cred_token = token, cred_secret = Some ''s3''\<rparr>\<rparr>"

text \<open>Persona and all three credential fields are present (truthy).\<close>

definition valid_request :: "StartAgentRequest \<Rightarrow> bool" where
  "valid_request req =
     (truthy (character req) \<and>
      (case twitter req of
         None \<Rightarrow> False
       | Some tw \<Rightarrow> truthy (cred_username tw) \<and> truthy (cred_token tw) \<and> truthy (cred_secret tw)))"

section \<open>Request queue (class RequestQueue of the client base)\<close>

text \<open>
  A request is identified by a name. Whether its \<open>k\<close>-th invocation (counted from 0)
  resolves is given by a function \<open>outcome name k\<close>, a parameter of the model.

  The queue holds thunks. \<open>add\<close> pushes a wrapper that awaits the request, settles the
  caller's promise in its own \<open>try\<close>/\<open>catch\<close> and so never rejects. \<open>Bare\<close> stands for a
  thunk whose rejection reaches \<open>processQueue\<close>; \<open>add\<close> never pushes one.
\<close>

type_synonym task = string

datatype thunk = Wrapped task | Bare task

fun task_of :: "thunk \<Rightarrow> task" where
  "task_of (Wrapped t) = t"
| "task_of (Bare t) = t"

fun rejects :: "thunk \<Rightarrow> bool \<Rightarrow> bool" where
  "rejects (Wrapped t) ok = False"
| "rejects (Bare t) ok = (\<not> ok)"

datatype event =
    Executed task bool
  | Resolved task
  | Rejected task
  | Backoff nat
  | RandomDelay nat

text \<open>Where a running \<open>processQueue\<close> call is suspended.\<close>

datatype pc = AwaitRequest thunk | AwaitBackoff | AwaitRandomDelay

text \<open>
  \<open>queue\<close> and \<open>processing\<close> are the fields of the class. \<open>loops\<close> holds the suspended
  \<open>processQueue\<close> calls, \<open>executing\<close> the thunks that were invoked and have not settled,
  \<open>attempts\<close> how often each request was invoked, \<open>trace\<close> what was observed, in order.
  Delays are in milliseconds.
\<close>

record RequestQueue =
  queue :: "thunk list"
  processing :: bool
  loops :: "pc list"
  executing :: "thunk list"
  attempts :: "task \<Rightarrow> nat"
  trace :: "event list"

definition empty_queue :: RequestQueue where
  "empty_queue =
     \<lparr>queue = [], processing = False, loops = [], executing = [],
      attempts = (\<lambda>t. 0), trace = []\<rparr>"

definition exponentialBackoff :: "nat \<Rightarrow> nat" where
  "exponentialBackoff retryCount = 2 ^ retryCount * 1000"

text \<open>\<open>randomDelay\<close>, for \<open>r = Math.floor(Math.random() * 2000)\<close>.\<close>

definition randomDelay :: "nat \<Rightarrow> nat" where
  "randomDelay r = r + 1500"

text \<open>
  The head of the \<open>while\<close> loop, run by a \<open>processQueue\<close> call that is not suspended:
  with an empty queue the call clears \<open>processing\<close> and ends; otherwise it shifts the
  first thunk, invokes it and suspends on its promise.
\<close>

definition loop_head :: "RequestQueue \<Rightarrow> RequestQueue" where
  "loop_head q =
     (case queue q of
        [] \<Rightarrow> q\<lparr>processing := False\<rparr>
      | request # rest \<Rightarrow>
          q\<lparr>queue := rest,
            executing := executing q @ [request],
            loops := loops q @ [AwaitRequest request]\<rparr>)"

definition processQueue :: "RequestQueue \<Rightarrow> RequestQueue" where
  "processQueue q =
     (if processing q \<or> queue q = [] then q
      else loop_head (q\<lparr>processing := True\<rparr>))"

definition add :: "task \<Rightarrow> RequestQueue \<Rightarrow> RequestQueue" where
  "add request q = processQueue (q\<lparr>queue := queue q @ [Wrapped request]\<rparr>)"

text \<open>The end of the loop body: \<open>await this.randomDelay()\<close>.\<close>

definition after_try :: "nat \<Rightarrow> RequestQueue \<Rightarrow> RequestQueue" where
  "after_try r q =
     q\<lparr>loops := loops q @ [AwaitRandomDelay],
       trace := trace q @ [RandomDelay (randomDelay r)]\<rparr>"

text \<open>
  The awaited promise of the suspended call number \<open>i\<close> settles and the call runs to
  its next \<open>await\<close>. A settled request is counted and observed; the wrapper then
  resolves or rejects the caller's promise. Only a rejecting thunk enters the
  \<open>catch\<close> block, which unshifts it and backs off for
  \<open>exponentialBackoff(this.queue.length)\<close>.
\<close>

definition resume :: "(task \<Rightarrow> nat \<Rightarrow> bool) \<Rightarrow> nat \<Rightarrow> nat \<Rightarrow> RequestQueue \<Rightarrow> RequestQueue" where
  "resume outcome r i q =
     (if i < length (loops q) then
        (let q0 = q\<lparr>loops := take i (loops q) @ drop (Suc i) (loops q)\<rparr>
         in case loops q ! i of
              AwaitRequest request \<Rightarrow>
                (let t = task_of request;
                     ok = outcome t (attempts q t);
                     q1 = q0\<lparr>executing := remove1 request (executing q),
                             attempts := (attempts q)(t := Suc (attempts q t)),
                             trace := trace q @ [Executed t ok]
                               @ (case request of
                                    Wrapped u \<Rightarrow> [if ok then Resolved t else Rejected t]
                                  | Bare u \<Rightarrow> [])\<rparr>
                 in if rejects request ok then
                      (let q2 = q1\<lparr>queue := request # queue q1\<rparr>
                       in q2\<lparr>loops := loops q2 @ [AwaitBackoff],
                             trace := trace q2
                               @ [Backoff (exponentialBackoff (length (queue q2)))]\<rparr>)
                    else after_try r q1)
            | AwaitBackoff \<Rightarrow> after_try r q0
            | AwaitRandomDelay \<Rightarrow> loop_head q0)
      else q)"

text \<open>
  The states a queue can be in: callers add requests at any moment, and whenever a
  suspended call's promise settles the call runs on.
\<close>

inductive reachable :: "(task \<Rightarrow> nat \<Rightarrow> bool) \<Rightarrow> RequestQueue \<Rightarrow> bool"
  for outcome :: "task \<Rightarrow> nat \<Rightarrow> bool" where
  reachable_init: "reachable outcome empty_queue"
| reachable_add: "reachable outcome q \<Longrightarrow> reachable outcome (add request q)"
| reachable_resume:
    "reachable outcome q \<Longrightarrow> i < length (loops q) \<Longrightarrow> r < 2000 \<Longrightarrow>
     reachable outcome (resume outcome r i q)"

text \<open>
  Once no caller adds anything more, the queue runs by itself: \<open>drain\<close> resumes the
  first suspended call until none is left, at most \<open>n\<close> times.
\<close>

fun drain :: "(task \<Rightarrow> nat \<Rightarrow> bool) \<Rightarrow> nat \<Rightarrow> nat \<Rightarrow> RequestQueue \<Rightarrow> RequestQueue" where
  "drain outcome r 0 q = q"
| "drain outcome r (Suc n) q =
     (if loops q = [] then q else drain outcome r n (resume outcome r 0 q))"

text \<open>The request \<open>B\<close> rejects on its first two invocations; everything else resolves.\<close>

definition B_fails_twice :: "task \<Rightarrow> nat \<Rightarrow> bool" where
  "B_fails_twice t k = (if t = ''B'' then 2 \<le> k else True)"

text \<open>The thunk a suspended call has in flight, if any.\<close>

fun in_flight :: "pc \<Rightarrow> thunk list" where
  "in_flight (AwaitRequest request) = [request]"
| "in_flight AwaitBackoff = []"
| "in_flight AwaitRandomDelay = []"

text \<open>
  The invariant of the queue: at most one \<open>processQueue\<close> call is alive, \<open>processing\<close>
  is set exactly while one is, and the invoked thunks are those the calls wait for.
\<close>

definition single_loop :: "RequestQueue \<Rightarrow> bool" where
  "single_loop q =
     (length (loops q) \<le> 1 \<and> (processing q = (loops q \<noteq> [])) \<and>
      executing q = concat (map in_flight (loops q)))"

text \<open>
  A second invariant: every thunk is a wrapper of \<open>add\<close>, no call is backing off and
  no backoff was ever observed.
\<close>

fun wrapped :: "thunk \<Rightarrow> bool" where
  "wrapped (Wrapped t) = True"
| "wrapped (Bare t) = False"

fun no_retry_pending :: "pc \<Rightarrow> bool" where
  "no_retry_pending (AwaitRequest request) = wrapped request"
| "no_retry_pending AwaitBackoff = False"
| "no_retry_pending AwaitRandomDelay = True"

fun is_backoff :: "event \<Rightarrow> bool" where
  "is_backoff (Backoff d) = True"
| "is_backoff e = False"

definition retry_free :: "RequestQueue \<Rightarrow> bool" where
  "retry_free q =
     (list_all wrapped (queue q) \<and> list_all no_retry_pending (loops q) \<and>
      \<not> list_ex is_backoff (trace q))"

section \<open>Scheduling loops (post.ts, search.ts, interactions.ts)\<close>

text \<open>
  The three self-rescheduling loops, unrolled for \<open>n\<close> iterations from iteration
  number \<open>k\<close> entered at time \<open>now\<close> (milliseconds). Each loop yields the timeline of
  what it does: when the work of an iteration is invoked, when that invocation
  completes, and when \<open>setTimeout\<close> is called with which delay. \<open>duration k\<close> is how
  long the work of iteration \<open>k\<close> takes and \<open>rnd k\<close> is the value of
  \<open>Math.floor(Math.random() * (max - min + 1))\<close> drawn there.

  \<open>engageWithSearchTermsLoop\<close> calls \<open>this.engageWithSearchTerms().then()\<close> without
  awaiting it and sets the timer in the same turn. \<open>generateNewTweetLoop\<close> awaits
  \<open>generateNewTweet()\<close> (when a post is due) and sets the timer afterwards.
  \<open>handleTwitterInteractionsLoop\<close> sets the timer first; the timer's callback awaits
  the work and then enters the loop again.
\<close>

datatype sched_event = WorkStart nat | WorkEnd nat | TimerSet nat nat

type_synonym timeline = "(nat \<times> sched_event) list"

fun engageWithSearchTermsLoop ::
  "(nat \<Rightarrow> nat) \<Rightarrow> (nat \<Rightarrow> nat) \<Rightarrow> nat \<Rightarrow> nat \<Rightarrow> nat \<Rightarrow> timeline" where
  "engageWithSearchTermsLoop duration rnd 0 k now = []"
| "engageWithSearchTermsLoop duration rnd (Suc n) k now =
     (let randomMinutes = rnd k + 60;
          delay = randomMinutes * 60 * 1000
      in [(now, WorkStart k), (now + duration k, WorkEnd k), (now, TimerSet k delay)]
         @ engageWithSearchTermsLoop duration rnd n (Suc k) (now + delay))"

fun generateNewTweetLoop ::
  "nat \<Rightarrow> (nat \<Rightarrow> nat) \<Rightarrow> (nat \<Rightarrow> nat) \<Rightarrow> (nat \<Rightarrow> nat) \<Rightarrow> nat \<Rightarrow> nat \<Rightarrow> nat \<Rightarrow> timeline" where
  "generateNewTweetLoop intervalMin lastPostTimestamp duration rnd 0 k now = []"
| "generateNewTweetLoop intervalMin lastPostTimestamp duration rnd (Suc n) k now =
     (let randomMinutes = rnd k + intervalMin;
          delay = randomMinutes * 60 * 1000;
          due = (now > lastPostTimestamp k + delay);
          done = (if due then now + duration k else now)
      in (if due then [(now, WorkStart k), (done, WorkEnd k)] else [])
         @ [(done, TimerSet k delay)]
         @ generateNewTweetLoop intervalMin lastPostTimestamp duration rnd n (Suc k) (done + delay))"

fun handleTwitterInteractionsLoop ::
  "nat \<Rightarrow> (nat \<Rightarrow> nat) \<Rightarrow> (nat \<Rightarrow> nat) \<Rightarrow> nat \<Rightarrow> nat \<Rightarrow> nat \<Rightarrow> timeline" where
  "handleTwitterInteractionsLoop intervalMin duration rnd 0 k now = []"
| "handleTwitterInteractionsLoop intervalMin duration rnd (Suc n) k now =
     (let randomMinutes = rnd k + intervalMin;
          delay = randomMinutes * 60 * 1000
      in [(now, TimerSet k delay), (now + delay, WorkStart k),
          (now + delay + duration k, WorkEnd k)]
         @ handleTwitterInteractionsLoop intervalMin duration rnd n (Suc k)
             (now + delay + duration k))"

text \<open>
  \<open>running evs t\<close> is the number of invocations in flight at time \<open>t\<close>: those started
  by then and not completed by then.
\<close>

fun started :: "nat \<Rightarrow> nat \<times> sched_event \<Rightarrow> bool" where
  "started t (tm, WorkStart k) = (tm \<le> t)"
| "started t (tm, WorkEnd k) = False"
| "started t (tm, TimerSet k d) = False"

fun ended :: "nat \<Rightarrow> nat \<times> sched_event \<Rightarrow> bool" where
  "ended t (tm, WorkStart k) = False"
| "ended t (tm, WorkEnd k) = (tm \<le> t)"
| "ended t (tm, TimerSet k d) = False"

definition running :: "timeline \<Rightarrow> nat \<Rightarrow> nat" where
  "running evs t = length (filter (started t) evs) - length (filter (ended t) evs)"

text \<open>
  A timeline is sequential from \<open>now\<close> on when no work starts or completes before
  \<open>now\<close> and, at every time, the invocations started are the invocations completed or
  one more.
\<close>

definition sequential :: "nat \<Rightarrow> timeline \<Rightarrow> bool" where
  "sequential now evs =
     (\<forall>t. length (filter (ended t) evs) \<le> length (filter (started t) evs) \<and>
          length (filter (started t) evs) \<le> Suc (length (filter (ended t) evs)) \<and>
          (t < now \<longrightarrow> filter (started t) evs = [] \<and> filter (ended t) evs = []))"

section \<open>Properties of the thread builder\<close>

lemma processThread_depth_limit:
  "maxReplies \<le> depth \<Longrightarrow> processThread c maxReplies t depth s = (False, s)"
  by (simp add: processThread.simps)

lemma thread_ok_push:
  "thread_ok s \<Longrightarrow> tweet_id t \<notin> visited s \<Longrightarrow>
   thread_ok (s\<lparr>thread := t # thread s, visited := insert (tweet_id t) (visited s), db := d\<rparr>)"
  by (auto simp: thread_ok_def)

lemma thread_ok_db: "thread_ok s \<Longrightarrow> thread_ok (s\<lparr>db := d\<rparr>)"
  by (simp add: thread_ok_def)

lemma processThread_thread_ok:
  "thread_ok s \<Longrightarrow> thread_ok (snd (processThread c n t d s))"
proof (induction c n t d s rule: processThread.induct)
  case (1 c maxReplies currentTweet depth s)
  note IH = "1.IH" and ok = "1.prems"
  show ?case
    apply (subst processThread.simps)
    using IH ok
    apply (auto simp: Let_def thread_ok_push thread_ok_db split: fetch_result.splits)
    done
qed

lemma processThread_length:
  "length (thread (snd (processThread c n t d s))) + d \<le> length (thread s) + max n d"
proof (induction c n t d s rule: processThread.induct)
  case (1 c maxReplies currentTweet depth s)
  show ?case
    apply (subst processThread.simps)
    using 1
    apply (auto simp: Let_def split: fetch_result.splits)
    done
qed

lemma handle_memory_storage_profile:
  "profile c \<noteq> None \<Longrightarrow> fst (handle_memory_storage c t d) = False"
  by (auto simp: handle_memory_storage_def Let_def split: option.splits)

lemma processThread_returns:
  "profile c \<noteq> None \<Longrightarrow> fst (processThread c n t d s) = False"
  by (subst processThread.simps)
     (simp add: Let_def handle_memory_storage_profile split: fetch_result.splits)

lemma processThread_parent:
  assumes "d < n" "profile c \<noteq> None" "tweet_id t \<notin> visited s"
    and "in_reply_to_user_id t = Some r" "r \<noteq> []" "getTweet c r = Fetched p"
  shows "processThread c n t d s =
     (False, snd (processThread c n p (Suc d)
        (s\<lparr>thread := t # thread s, visited := insert (tweet_id t) (visited s),
           db := snd (handle_memory_storage c t (db s))\<rparr>)))"
  apply (subst processThread.simps)
  using assms
  apply (simp add: Let_def handle_memory_storage_profile truthy_def)
  done

lemma processThread_root:
  assumes "d < n" "profile c \<noteq> None" "tweet_id t \<notin> visited s"
    and "\<not> truthy (in_reply_to_user_id t)"
  shows "processThread c n t d s =
     (False, s\<lparr>thread := t # thread s, visited := insert (tweet_id t) (visited s),
           db := snd (handle_memory_storage c t (db s))\<rparr>)"
  apply (subst processThread.simps)
  using assms
  apply (simp add: Let_def handle_memory_storage_profile)
  done

lemma processThread_visited:
  assumes "d < n" "profile c \<noteq> None" "tweet_id t \<in> visited s"
  shows "processThread c n t d s = (False, s\<lparr>db := snd (handle_memory_storage c t (db s))\<rparr>)"
  apply (subst processThread.simps)
  using assms
  apply (simp add: Let_def handle_memory_storage_profile)
  done

text \<open>
  Claim C3. \<open>buildConversationThread\<close> is a total function of its inputs, whatever
  the parent references look like (cycles included): with a loaded profile it returns a
  thread, and every thread it returns has no two nodes with the same id. (With a null
  profile the depth-0 call can reject at \<open>client.profile!.id\<close>; then no thread is
  returned.)
\<close>

theorem buildConversationThread_no_duplicates:
  "(profile c \<noteq> None \<longrightarrow> (\<exists>th. fst (buildConversationThread leaf c n db0) = Inr th)) \<and>
   (\<forall>th. fst (buildConversationThread leaf c n db0) = Inr th \<longrightarrow> distinct (map tweet_id th))"
proof -
  have "thread_ok \<lparr>thread = [], visited = {}, db = db0\<rparr>"
    by (simp add: thread_ok_def)
  then have "thread_ok (snd (processThread c n leaf 0 \<lparr>thread = [], visited = {}, db = db0\<rparr>))"
    by (rule processThread_thread_ok)
  then show ?thesis
    by (auto simp: buildConversationThread_def Let_def thread_ok_def processThread_returns
        split: if_splits)
qed

text \<open>
  The two-node cycle 1 \<rightarrow> 2 \<rightarrow> 1: the builder stops when it meets node 1 again.
\<close>

theorem buildConversationThread_no_duplicates_witness:
  "profile (example_client cycle_fetch) \<noteq> None \<and>
   fst (buildConversationThread (example_tweet ''1'' (Some ''2'')) (example_client cycle_fetch) 10 empty_store)
     = Inr [example_tweet ''2'' (Some ''1''), example_tweet ''1'' (Some ''2'')] \<and>
   distinct (map tweet_id [example_tweet ''2'' (Some ''1''), example_tweet ''1'' (Some ''2'')])"
proof -
  let ?c = "example_client cycle_fetch"
  have p: "profile ?c \<noteq> None" by (simp add: example_client_def)
  have g1: "getTweet ?c ''2'' = Fetched (example_tweet ''2'' (Some ''1''))"
    and g2: "getTweet ?c ''1'' = Fetched (example_tweet ''1'' (Some ''2''))"
    by (simp_all add: example_client_def cycle_fetch_def)
  have r: "fst (buildConversationThread (example_tweet ''1'' (Some ''2'')) ?c 10 empty_store)
     = Inr [example_tweet ''2'' (Some ''1''), example_tweet ''1'' (Some ''2'')]"
    using p g1 g2
    by (simp add: buildConversationThread_def processThread_parent processThread_visited
        example_tweet_def empty_store_def)
  from buildConversationThread_no_duplicates [of ?c "example_tweet ''1'' (Some ''2'')" 10 empty_store] p r
  show ?thesis by auto
qed

lemma find_snoc:
  "find P (xs @ [x]) = (case find P xs of Some y \<Rightarrow> Some y | None \<Rightarrow> if P x then Some x else None)"
  by (induction xs) auto

lemma getMemoryById_ensureConnection:
  "getMemoryById (ensureConnection u r a b src d) k = getMemoryById d k"
  by (simp add: getMemoryById_def ensureConnection_def)

lemma getMemoryById_createMemory:
  "getMemoryById (createMemory m d) k =
     (case getMemoryById d k of Some y \<Rightarrow> Some y
      | None \<Rightarrow> if mem_id m = k then Some m else None)"
  by (simp add: getMemoryById_def createMemory_def find_snoc)

lemma memory_key_same: "tweet_id t' = tweet_id t \<Longrightarrow> memory_key c t' = memory_key c t"
  by (simp add: memory_key_def)

lemma handle_memory_storage_present:
  "getMemoryById d (memory_key c t) = Some m \<Longrightarrow> handle_memory_storage c t d = (False, d)"
  by (simp add: handle_memory_storage_def)

lemma handle_memory_storage_stored:
  assumes "profile c \<noteq> None"
  shows "\<exists>m. getMemoryById (snd (handle_memory_storage c t d)) (memory_key c t) = Some m"
proof (cases "getMemoryById d (memory_key c t)")
  case None
  with assms show ?thesis
    by (auto simp: handle_memory_storage_def Let_def getMemoryById_createMemory
        getMemoryById_ensureConnection)
next
  case (Some m)
  then show ?thesis by (simp add: handle_memory_storage_present)
qed

lemma handle_memory_storage_again:
  assumes "profile c \<noteq> None" "tweet_id t' = tweet_id t"
  shows "handle_memory_storage c t' (snd (handle_memory_storage c t d)) =
         (False, snd (handle_memory_storage c t d))"
proof -
  obtain m where "getMemoryById (snd (handle_memory_storage c t d)) (memory_key c t) = Some m"
    using handle_memory_storage_stored [OF assms(1)] by blast
  then have "getMemoryById (snd (handle_memory_storage c t d)) (memory_key c t') = Some m"
    by (simp add: memory_key_same [OF assms(2)])
  then show ?thesis by (rule handle_memory_storage_present)
qed

lemma entries_fresh:
  assumes "profile c \<noteq> None" "entries d (memory_key c t) = []"
  shows "map mem_text (entries (snd (handle_memory_storage c t d)) (memory_key c t)) = [tweet_text t]"
proof -
  have "getMemoryById d (memory_key c t) = None"
    using assms(2) by (auto simp: getMemoryById_def entries_def find_None_iff filter_empty_conv)
  with assms show ?thesis
    by (auto simp: handle_memory_storage_def Let_def createMemory_def ensureConnection_def entries_def)
qed

text \<open>
  For a client whose profile is loaded the memory-write step is a first-seen-wins
  upsert: running it a second time for a node with the same id (and the same agent)
  changes nothing and does not reject, and a store that had no row under the derived
  identifier has exactly one afterwards, with the content seen first.
\<close>

theorem handle_memory_storage_first_seen_wins:
  assumes "profile c \<noteq> None" and "tweet_id t' = tweet_id t"
    and "entries db0 (memory_key c t) = []"
  shows "handle_memory_storage c t' (snd (handle_memory_storage c t db0)) =
           (False, snd (handle_memory_storage c t db0)) \<and>
         length (entries (snd (handle_memory_storage c t' (snd (handle_memory_storage c t db0))))
                   (memory_key c t)) = 1 \<and>
         map mem_text (entries (snd (handle_memory_storage c t' (snd (handle_memory_storage c t db0))))
                   (memory_key c t)) = [tweet_text t]"
proof -
  have again: "handle_memory_storage c t' (snd (handle_memory_storage c t db0)) =
           (False, snd (handle_memory_storage c t db0))"
    using assms(1,2) by (rule handle_memory_storage_again)
  have one: "map mem_text (entries (snd (handle_memory_storage c t db0)) (memory_key c t)) = [tweet_text t]"
    using assms(1,3) by (rule entries_fresh)
  then have "length (map mem_text (entries (snd (handle_memory_storage c t db0)) (memory_key c t))) = 1"
    by simp
  then have "length (entries (snd (handle_memory_storage c t db0)) (memory_key c t)) = 1"
    by simp
  with again one show ?thesis by simp
qed

text \<open>
  The same node written twice into the empty store, the second time with an edited text.
\<close>

theorem handle_memory_storage_first_seen_wins_witness:
  "profile (example_client cycle_fetch) \<noteq> None \<and>
   tweet_id ((example_tweet ''1'' None)\<lparr>tweet_text := ''edited''\<rparr>) = tweet_id (example_tweet ''1'' None) \<and>
   entries empty_store (memory_key (example_client cycle_fetch) (example_tweet ''1'' None)) = [] \<and>
   length (entries
     (snd (handle_memory_storage (example_client cycle_fetch)
            ((example_tweet ''1'' None)\<lparr>tweet_text := ''edited''\<rparr>)
            (snd (handle_memory_storage (example_client cycle_fetch) (example_tweet ''1'' None)
                    empty_store))))
     (memory_key (example_client cycle_fetch) (example_tweet ''1'' None))) = 1 \<and>
   map mem_text (entries
     (snd (handle_memory_storage (example_client cycle_fetch)
            ((example_tweet ''1'' None)\<lparr>tweet_text := ''edited''\<rparr>)
            (snd (handle_memory_storage (example_client cycle_fetch) (example_tweet ''1'' None)
                    empty_store))))
     (memory_key (example_client cycle_fetch) (example_tweet ''1'' None))) = [''gm'']"
proof -
  let ?c = "example_client cycle_fetch" and ?t = "example_tweet ''1'' None"
  have h: "profile ?c \<noteq> None" "tweet_id (?t\<lparr>tweet_text := ''edited''\<rparr>) = tweet_id ?t"
    "entries empty_store (memory_key ?c ?t) = []"
    by (simp_all add: example_client_def example_tweet_def entries_def empty_store_def)
  have tx: "tweet_text ?t = ''gm''" by (simp add: example_tweet_def)
  from handle_memory_storage_first_seen_wins [OF h, unfolded tx] h
  show ?thesis by blast
qed

text \<open>
  Claim C10. A thread returned for \<open>maxReplies = n\<close> has at most \<open>n\<close> nodes, and for
  \<open>n = 0\<close> the builder returns the empty thread and leaves the store untouched: the
  depth check comes before everything else.
\<close>

theorem buildConversationThread_at_most_maxReplies:
  "(\<forall>th. fst (buildConversationThread leaf c n db0) = Inr th \<longrightarrow> length th \<le> n) \<and>
   buildConversationThread leaf c 0 db0 = (Inr [], db0)"
proof -
  have "length (thread (snd (processThread c n leaf 0 \<lparr>thread = [], visited = {}, db = db0\<rparr>))) \<le> n"
    using processThread_length [of c n leaf 0 "\<lparr>thread = [], visited = {}, db = db0\<rparr>"]
    by simp
  moreover have "buildConversationThread leaf c 0 db0 = (Inr [], db0)"
    by (simp add: buildConversationThread_def processThread.simps)
  ultimately show ?thesis
    by (auto simp: buildConversationThread_def Let_def split: if_splits)
qed

text \<open>
  The chain D, C, B, A cut at \<open>maxReplies = 2\<close> gives the two nodes C, D.
\<close>

theorem buildConversationThread_at_most_maxReplies_witness:
  "fst (buildConversationThread (example_tweet ''D'' (Some ''C'')) (example_client chain_fetch) 2 empty_store)
     = Inr [example_tweet ''C'' (Some ''B''), example_tweet ''D'' (Some ''C'')] \<and>
   length [example_tweet ''C'' (Some ''B''), example_tweet ''D'' (Some ''C'')] \<le> 2 \<and>
   buildConversationThread (example_tweet ''D'' (Some ''C'')) (example_client chain_fetch) 0 empty_store
     = (Inr [], empty_store)"
proof -
  let ?c = "example_client chain_fetch"
  have p: "profile ?c \<noteq> None" by (simp add: example_client_def)
  have g: "getTweet ?c ''C'' = Fetched (example_tweet ''C'' (Some ''B''))"
    "getTweet ?c ''B'' = Fetched (example_tweet ''B'' (Some ''A''))"
    by (simp_all add: example_client_def chain_fetch_def)
  have r: "fst (buildConversationThread (example_tweet ''D'' (Some ''C'')) ?c 2 empty_store)
     = Inr [example_tweet ''C'' (Some ''B''), example_tweet ''D'' (Some ''C'')]"
    using p g
    by (simp add: buildConversationThread_def processThread_parent processThread_depth_limit
        example_tweet_def empty_store_def)
  from buildConversationThread_at_most_maxReplies
         [of "example_tweet ''D'' (Some ''C'')" ?c 2 empty_store] r
       buildConversationThread_at_most_maxReplies
         [of "example_tweet ''D'' (Some ''C'')" ?c 0 empty_store]
  show ?thesis by simp
qed

text \<open>
  For a client whose profile is loaded the chain is returned root-first: for a chain
  D \<rightarrow> C \<rightarrow> B \<rightarrow> A of nodes with distinct ids, each parent reference non-empty and
  answered by the node fetch with the parent, and A without a parent reference,
  \<open>buildConversationThread(D, client, 10)\<close> returns \<open>[A, B, C, D]\<close>.
\<close>

theorem buildConversationThread_chain_root_first:
  assumes "in_reply_to_user_id D = Some rC" "rC \<noteq> []" "getTweet c rC = Fetched C"
    and "in_reply_to_user_id C = Some rB" "rB \<noteq> []" "getTweet c rB = Fetched B"
    and "in_reply_to_user_id B = Some rA" "rA \<noteq> []" "getTweet c rA = Fetched A"
    and "\<not> truthy (in_reply_to_user_id A)"
    and "distinct [tweet_id A, tweet_id B, tweet_id C, tweet_id D]"
    and "profile c \<noteq> None"
  shows "fst (buildConversationThread D c 10 db0) = Inr [A, B, C, D]"
  using assms
  by (simp add: buildConversationThread_def processThread_parent processThread_root)

text \<open>
  The chain of the example node store.
\<close>

theorem buildConversationThread_chain_root_first_witness:
  "in_reply_to_user_id (example_tweet ''D'' (Some ''C'')) = Some ''C'' \<and> ''C'' \<noteq> [] \<and>
   getTweet (example_client chain_fetch) ''C'' = Fetched (example_tweet ''C'' (Some ''B'')) \<and>
   in_reply_to_user_id (example_tweet ''C'' (Some ''B'')) = Some ''B'' \<and> ''B'' \<noteq> [] \<and>
   getTweet (example_client chain_fetch) ''B'' = Fetched (example_tweet ''B'' (Some ''A'')) \<and>
   in_reply_to_user_id (example_tweet ''B'' (Some ''A'')) = Some ''A'' \<and> ''A'' \<noteq> [] \<and>
   getTweet (example_client chain_fetch) ''A'' = Fetched (example_tweet ''A'' None) \<and>
   \<not> truthy (in_reply_to_user_id (example_tweet ''A'' None)) \<and>
   distinct [tweet_id (example_tweet ''A'' None), tweet_id (example_tweet ''B'' (Some ''A'')),
             tweet_id (example_tweet ''C'' (Some ''B'')), tweet_id (example_tweet ''D'' (Some ''C''))] \<and>
   profile (example_client chain_fetch) \<noteq> None \<and>
   fst (buildConversationThread (example_tweet ''D'' (Some ''C'')) (example_client chain_fetch) 10 empty_store)
     = Inr [example_tweet ''A'' None, example_tweet ''B'' (Some ''A''),
            example_tweet ''C'' (Some ''B''), example_tweet ''D'' (Some ''C'')]"
proof -
  let ?c = "example_client chain_fetch"
  have h: "in_reply_to_user_id (example_tweet ''D'' (Some ''C'')) = Some ''C''" "''C'' \<noteq> []"
    "getTweet ?c ''C'' = Fetched (example_tweet ''C'' (Some ''B''))"
    "in_reply_to_user_id (example_tweet ''C'' (Some ''B'')) = Some ''B''" "''B'' \<noteq> []"
    "getTweet ?c ''B'' = Fetched (example_tweet ''B'' (Some ''A''))"
    "in_reply_to_user_id (example_tweet ''B'' (Some ''A'')) = Some ''A''" "''A'' \<noteq> []"
    "getTweet ?c ''A'' = Fetched (example_tweet ''A'' None)"
    "\<not> truthy (in_reply_to_user_id (example_tweet ''A'' None))"
    "distinct [tweet_id (example_tweet ''A'' None), tweet_id (example_tweet ''B'' (Some ''A'')),
             tweet_id (example_tweet ''C'' (Some ''B'')), tweet_id (example_tweet ''D'' (Some ''C''))]"
    "profile ?c \<noteq> None"
    by (simp_all add: example_tweet_def example_client_def chain_fetch_def truthy_def)
  from buildConversationThread_chain_root_first [OF h, of empty_store] h
  show ?thesis by blast
qed

text \<open>Rows of the store are never removed or replaced by the builder.\<close>

lemma handle_memory_storage_keeps:
  assumes "getMemoryById d k = Some m"
  shows "getMemoryById (snd (handle_memory_storage c t d)) k = Some m"
  using assms
  by (auto simp: handle_memory_storage_def Let_def getMemoryById_createMemory
      getMemoryById_ensureConnection split: option.splits)

lemma processThread_keeps:
  "getMemoryById (db s) k = Some m \<Longrightarrow>
   getMemoryById (db (snd (processThread c n t d s))) k = Some m"
proof (induction c n t d s rule: processThread.induct)
  case (1 c maxReplies currentTweet depth s)
  note IH = "1.IH" and pre = "1.prems"
  show ?case
    apply (subst processThread.simps)
    using IH pre
    apply (auto simp: Let_def handle_memory_storage_keeps split: fetch_result.splits)
    done
qed

lemma processThread_chain_end:
  assumes "d < n" "profile c \<noteq> None" "tweet_id t \<notin> visited s"
    and "\<not> truthy (in_reply_to_user_id t) \<or>
         getTweet c (the (in_reply_to_user_id t)) = NoTweet \<or>
         getTweet c (the (in_reply_to_user_id t)) = FetchFailed"
  shows "processThread c n t d s =
     (False, s\<lparr>thread := t # thread s, visited := insert (tweet_id t) (visited s),
           db := snd (handle_memory_storage c t (db s))\<rparr>)"
  apply (subst processThread.simps)
  using assms
  apply (auto simp: Let_def handle_memory_storage_profile)
  done

lemma processThread_again:
  "profile c \<noteq> None \<Longrightarrow>
   db (snd (processThread c n t d (s\<lparr>db := db (snd (processThread c n t d s))\<rparr>))) =
   db (snd (processThread c n t d s))"
proof (induction c n t d s rule: processThread.induct)
  case (1 c n t d s)
  note p = "1.prems"
  show ?case
  proof (cases "n \<le> d")
    case True
    then show ?thesis by (simp add: processThread_depth_limit)
  next
    case False
    then have dn: "d < n" by simp
    let ?db1 = "snd (handle_memory_storage c t (db s))"
    let ?s2 = "s\<lparr>thread := t # thread s, visited := insert (tweet_id t) (visited s), db := ?db1\<rparr>"
    obtain m where m: "getMemoryById ?db1 (memory_key c t) = Some m"
      using handle_memory_storage_stored [OF p] by blast
    have again: "snd (handle_memory_storage c t d') = d'"
      if "getMemoryById d' (memory_key c t) = Some m" for d'
      using that by (simp add: handle_memory_storage_present)
    show ?thesis
    proof (cases "tweet_id t \<in> visited s")
      case True
      have "processThread c n t d s = (False, s\<lparr>db := ?db1\<rparr>)"
        by (rule processThread_visited [OF dn p True])
      moreover have "processThread c n t d (s\<lparr>db := ?db1\<rparr>) =
          (False, s\<lparr>db := snd (handle_memory_storage c t ?db1)\<rparr>)"
        using processThread_visited [OF dn p, of t "s\<lparr>db := ?db1\<rparr>"] True by simp
      ultimately show ?thesis by (simp add: again [OF m])
    next
      case nv: False
      show ?thesis
      proof (cases "truthy (in_reply_to_user_id t)")
        case tr: True
        then obtain r where r: "in_reply_to_user_id t = Some r" "r \<noteq> []"
          by (auto simp: truthy_def split: option.splits)
        show ?thesis
        proof (cases "getTweet c r")
          case (Fetched parent)
          let ?dbF = "db (snd (processThread c n parent (Suc d) ?s2))"
          have first: "processThread c n t d s = (False, snd (processThread c n parent (Suc d) ?s2))"
            by (rule processThread_parent [OF dn p nv r Fetched])
          have kept: "getMemoryById ?dbF (memory_key c t) = Some m"
            using m by (intro processThread_keeps) simp
          have second: "processThread c n t d (s\<lparr>db := ?dbF\<rparr>) =
              (False, snd (processThread c n parent (Suc d) (?s2\<lparr>db := ?dbF\<rparr>)))"
            using processThread_parent [OF dn p _ r Fetched, of "s\<lparr>db := ?dbF\<rparr>"] nv
            by (simp add: again [OF kept])
          have "db (snd (processThread c n parent (Suc d) (?s2\<lparr>db := ?dbF\<rparr>))) = ?dbF"
            using "1.IH" [of "handle_memory_storage c t (db s)" ?s2 parent] False nv tr r Fetched p
            by (simp add: handle_memory_storage_profile)
          with first second show ?thesis by simp
        next
          case NoTweet
          with r have e: "\<not> truthy (in_reply_to_user_id t) \<or>
             getTweet c (the (in_reply_to_user_id t)) = NoTweet \<or>
             getTweet c (the (in_reply_to_user_id t)) = FetchFailed" by simp
          have "processThread c n t d s = (False, ?s2)"
            by (rule processThread_chain_end [OF dn p nv e])
          moreover have "processThread c n t d (s\<lparr>db := ?db1\<rparr>) =
              (False, ?s2\<lparr>db := snd (handle_memory_storage c t ?db1)\<rparr>)"
            using processThread_chain_end [OF dn p _ e, of "s\<lparr>db := ?db1\<rparr>"] nv by simp
          ultimately show ?thesis by (simp add: again [OF m])
        next
          case FetchFailed
          with r have e: "\<not> truthy (in_reply_to_user_id t) \<or>
             getTweet c (the (in_reply_to_user_id t)) = NoTweet \<or>
             getTweet c (the (in_reply_to_user_id t)) = FetchFailed" by simp
          have "processThread c n t d s = (False, ?s2)"
            by (rule processThread_chain_end [OF dn p nv e])
          moreover have "processThread c n t d (s\<lparr>db := ?db1\<rparr>) =
              (False, ?s2\<lparr>db := snd (handle_memory_storage c t ?db1)\<rparr>)"
            using processThread_chain_end [OF dn p _ e, of "s\<lparr>db := ?db1\<rparr>"] nv by simp
          ultimately show ?thesis by (simp add: again [OF m])
        qed
      next
        case ntr: False
        then have e: "\<not> truthy (in_reply_to_user_id t) \<or>
             getTweet c (the (in_reply_to_user_id t)) = NoTweet \<or>
             getTweet c (the (in_reply_to_user_id t)) = FetchFailed" by simp
        have "processThread c n t d s = (False, ?s2)"
          by (rule processThread_chain_end [OF dn p nv e])
        moreover have "processThread c n t d (s\<lparr>db := ?db1\<rparr>) =
            (False, ?s2\<lparr>db := snd (handle_memory_storage c t ?db1)\<rparr>)"
          using processThread_chain_end [OF dn p _ e, of "s\<lparr>db := ?db1\<rparr>"] nv by simp
        ultimately show ?thesis by (simp add: again [OF m])
      qed
    qed
  qed
qed

text \<open>
  Building the thread of the same node a second time adds nothing to the store.
\<close>

lemma buildConversationThread_twice:
  assumes "profile c \<noteq> None"
  shows "snd (buildConversationThread leaf c n (snd (buildConversationThread leaf c n db0))) =
         snd (buildConversationThread leaf c n db0)"
  using processThread_again [OF assms, of n leaf 0 "\<lparr>thread = [], visited = {}, db = db0\<rparr>"]
  by (simp add: buildConversationThread_def Let_def)

text \<open>
  The identifier is the one derived from node id and agent id: with a loaded profile, a
  node written twice and another node with a different derived identifier end up with
  one row each, under their own identifiers.
\<close>

lemma handle_memory_storage_other_row:
  assumes "k \<noteq> memory_key c t"
  shows "entries (snd (handle_memory_storage c t d)) k = entries d k"
  using assms
  by (auto simp: handle_memory_storage_def Let_def createMemory_def ensureConnection_def
      entries_def split: option.splits)

lemma handle_memory_storage_keyed_by_node_and_agent:
  assumes "profile c \<noteq> None"
    and "stringToUuid c (tweet_id u @ ''-'' @ agentId c) \<noteq> stringToUuid c (tweet_id t @ ''-'' @ agentId c)"
    and "filter (\<lambda>m. mem_id m = stringToUuid c (tweet_id t @ ''-'' @ agentId c)) (memories db0) = []"
    and "filter (\<lambda>m. mem_id m = stringToUuid c (tweet_id u @ ''-'' @ agentId c)) (memories db0) = []"
  shows "map mem_text (filter (\<lambda>m. mem_id m = stringToUuid c (tweet_id t @ ''-'' @ agentId c))
           (memories (snd (handle_memory_storage c u (snd (handle_memory_storage c t
              (snd (handle_memory_storage c t db0)))))))) = [tweet_text t] \<and>
         map mem_text (filter (\<lambda>m. mem_id m = stringToUuid c (tweet_id u @ ''-'' @ agentId c))
           (memories (snd (handle_memory_storage c u (snd (handle_memory_storage c t
              (snd (handle_memory_storage c t db0)))))))) = [tweet_text u]"
proof -
  let ?d1 = "snd (handle_memory_storage c t db0)"
  have kt: "entries db0 (memory_key c t) = []" and ku: "entries db0 (memory_key c u) = []"
    using assms(3,4) by (simp_all add: entries_def memory_key_def)
  have ne: "memory_key c u \<noteq> memory_key c t" using assms(2) by (simp add: memory_key_def)
  have same: "snd (handle_memory_storage c t ?d1) = ?d1"
    using handle_memory_storage_again [OF assms(1) refl, of t db0] by simp
  have t1: "map mem_text (entries ?d1 (memory_key c t)) = [tweet_text t]"
    using assms(1) kt by (rule entries_fresh)
  have "entries ?d1 (memory_key c u) = []"
    using ku ne by (simp add: handle_memory_storage_other_row)
  with assms(1) have u2: "map mem_text (entries (snd (handle_memory_storage c u ?d1)) (memory_key c u)) = [tweet_text u]"
    by (rule entries_fresh)
  have t2: "entries (snd (handle_memory_storage c u ?d1)) (memory_key c t) = entries ?d1 (memory_key c t)"
    using ne by (simp add: handle_memory_storage_other_row)
  from same t1 t2 u2 show ?thesis
    by (simp add: entries_def memory_key_def)
qed

lemma handle_memory_storage_unloaded:
  "handle_memory_storage (unloaded_client chain_fetch) (example_tweet ''D'' (Some ''C'')) empty_store =
     (True, \<lparr>memories = [], connections = [(''user'', ''conv-agent'', ''user'', ''User'', ''twitter'')]\<rparr>)"
  by (simp add: handle_memory_storage_def unloaded_client_def example_client_def example_tweet_def
      empty_store_def getMemoryById_def memory_key_def ensureConnection_def Let_def)

text \<open>
  Claim C4, at the input where the code departs from it: the chain D \<rightarrow> C \<rightarrow> B \<rightarrow> A
  is available from the node fetch, and the client's profile is not loaded. With an
  empty store the depth-0 call throws at \<open>client.profile!.id\<close> and
  \<open>buildConversationThread\<close> rejects. With only D persisted beforehand the same throw
  happens one level up, inside the \<open>try\<close> block, and the thread returned is \<open>[D]\<close>.
  Neither is \<open>[A, B, C, D]\<close>.
\<close>

theorem buildConversationThread_chain_without_profile:
  "fst (buildConversationThread (example_tweet ''D'' (Some ''C'')) (unloaded_client chain_fetch) 10
          empty_store) = Inl TypeError \<and>
   fst (buildConversationThread (example_tweet ''D'' (Some ''C'')) (unloaded_client chain_fetch) 10
          (snd (handle_memory_storage (example_client chain_fetch)
                  (example_tweet ''D'' (Some ''C'')) empty_store)))
     = Inr [example_tweet ''D'' (Some ''C'')]"
proof -
  let ?u = "unloaded_client chain_fetch" and ?D = "example_tweet ''D'' (Some ''C'')"
  let ?C = "example_tweet ''C'' (Some ''B'')"
  have first: "fst (processThread ?u 10 ?D 0 \<lparr>thread = [], visited = {}, db = empty_store\<rparr>)"
    by (subst processThread.simps) (simp add: handle_memory_storage_unloaded Let_def)
  let ?db1 = "snd (handle_memory_storage (example_client chain_fetch) ?D empty_store)"
  have db1: "?db1 = \<lparr>memories = [\<lparr>mem_id = ''D-agent'', mem_agentId = ''agent'', mem_text = ''gm'',
                 mem_source = ''twitter'', mem_url = ''D'', mem_inReplyTo = Some ''C-agent'',
                 mem_createdAt = 0, mem_roomId = ''conv-agent'', mem_userId = ''user''\<rparr>],
               connections = [(''user'', ''conv-agent'', ''user'', ''User'', ''twitter'')]\<rparr>"
    by (simp add: handle_memory_storage_def example_client_def example_tweet_def
      empty_store_def getMemoryById_def memory_key_def ensureConnection_def createMemory_def Let_def truthy_def)
  have hD: "handle_memory_storage ?u ?D ?db1 = (False, ?db1)"
    unfolding db1
    by (simp add: handle_memory_storage_def unloaded_client_def example_client_def example_tweet_def
        getMemoryById_def memory_key_def)
  have hC: "fst (handle_memory_storage ?u ?C ?db1)"
    unfolding db1
    by (simp add: handle_memory_storage_def unloaded_client_def example_client_def example_tweet_def
        getMemoryById_def memory_key_def Let_def)
  have g: "getTweet ?u ''C'' = Fetched ?C" "in_reply_to_user_id ?D = Some ''C''" "tweet_id ?D = ''D''"
    by (simp_all add: unloaded_client_def example_client_def chain_fetch_def example_tweet_def)
  have inner: "thread (snd (processThread ?u 10 ?C (Suc 0)
       \<lparr>thread = [?D], visited = {''D''}, db = ?db1\<rparr>)) = [?D]"
    by (subst processThread.simps) (simp add: hC Let_def)
  have second: "processThread ?u 10 ?D 0 \<lparr>thread = [], visited = {}, db = ?db1\<rparr> =
      (False, snd (processThread ?u 10 ?C (Suc 0) \<lparr>thread = [?D], visited = {''D''}, db = ?db1\<rparr>))"
    by (subst processThread.simps) (simp add: hD g Let_def truthy_def)
  from first second inner show ?thesis
    by (simp add: buildConversationThread_def Let_def)
qed

text \<open>
  Claim C9, at the input where the code departs from it: with a profile that is not
  loaded, each of the two runs of the memory-write step for the same node calls
  \<open>ensureConnection\<close> and then throws at \<open>client.profile!.id\<close>, before
  \<open>createMemory\<close>. The store holds no memory row afterwards, not one, and two
  connection rows.
\<close>

theorem handle_memory_storage_twice_without_profile:
  "fst (handle_memory_storage (unloaded_client chain_fetch) (example_tweet ''D'' (Some ''C'')) empty_store) \<and>
   fst (handle_memory_storage (unloaded_client chain_fetch) (example_tweet ''D'' (Some ''C''))
          (snd (handle_memory_storage (unloaded_client chain_fetch)
                  (example_tweet ''D'' (Some ''C'')) empty_store))) \<and>
   memories (snd (handle_memory_storage (unloaded_client chain_fetch) (example_tweet ''D'' (Some ''C''))
          (snd (handle_memory_storage (unloaded_client chain_fetch)
                  (example_tweet ''D'' (Some ''C'')) empty_store)))) = [] \<and>
   length (connections (snd (handle_memory_storage (unloaded_client chain_fetch)
          (example_tweet ''D'' (Some ''C''))
          (snd (handle_memory_storage (unloaded_client chain_fetch)
                  (example_tweet ''D'' (Some ''C'')) empty_store))))) = 2"
  by (simp add: handle_memory_storage_def unloaded_client_def example_client_def example_tweet_def
      empty_store_def getMemoryById_def memory_key_def ensureConnection_def Let_def)

section \<open>Properties of the supervisor\<close>

text \<open>
  Claim C8. When the persona or one of the credential fields \<open>username\<close>, \<open>token\<close>,
  \<open>secret\<close> is missing, \<open>startAgent\<close> answers \<open>INVALID_ARGUMENT\<close> and leaves the
  supervisor as it was: no child is spawned and no registry entry is made.
\<close>

theorem startAgent_missing_parameters:
  assumes "\<not> valid_request req"
  shows "startAgent req pid sv = (sv, RpcError INVALID_ARGUMENT ''MissingRequiredParametersError'')"
  using assms
  by (auto simp: startAgent_def valid_request_def split: option.splits)

text \<open>
  A request whose credentials lack the token.
\<close>

theorem startAgent_missing_parameters_witness:
  "\<not> valid_request (example_request None) \<and>
   startAgent (example_request None) (Some 4242) no_agents =
     (no_agents, RpcError INVALID_ARGUMENT ''MissingRequiredParametersError'') \<and>
   children (fst (startAgent (example_request None) (Some 4242) no_agents)) = [] \<and>
   agents (fst (startAgent (example_request None) (Some 4242) no_agents)) = Map.empty"
proof -
  have h: "\<not> valid_request (example_request None)"
    by (simp add: valid_request_def example_request_def truthy_def)
  from startAgent_missing_parameters [OF h, of "Some 4242" no_agents] h
  show ?thesis by (simp add: no_agents_def)
qed

text \<open>
  The rest of the lifecycle holds: a valid request whose child got pid \<open>p\<close> is
  answered with the pid, the status is \<open>running\<close> right away and \<open>stopped\<close> after the
  child's exit, and a pid that is neither registered nor an inherited property name is
  \<open>NOT_FOUND\<close>.
\<close>

lemma supervisor_lifecycle:
  assumes "valid_request req"
  shows "snd (startAgent req (Some p) sv) = Reply (show_nat p) \<and>
         getAgentStatus (show_nat p) (fst (startAgent req (Some p) sv))
           = Reply (show_nat p, Some ''running'') \<and>
         getAgentStatus (show_nat p) (child_exit (Some p) (fst (startAgent req (Some p) sv)))
           = Reply (show_nat p, Some ''stopped'')"
  using assms
  by (auto simp: startAgent_def valid_request_def Let_def getAgentStatus_def child_exit_def
      agents_get_def String_pid_def split: option.splits)

lemma stopAgent_not_found:
  assumes "agents sv pid = None" "pid \<notin> set object_prototype_keys"
  shows "stopAgent pid sv = (sv, RpcError NOT_FOUND ''AgentNotFoundError'')"
  using assms by (simp add: stopAgent_def agents_get_def)

text \<open>
  Claim C7, at the input where the code departs from it: no agent is registered under
  \<open>constructor\<close>, yet \<open>agents["constructor"]\<close> is the inherited \<open>Object\<close> function, so
  \<open>stopAgent\<close> takes the branch for a known agent and throws at
  \<open>agent.process.kill()\<close> instead of answering \<open>NOT_FOUND\<close>.
\<close>

theorem stopAgent_inherited_key_throws:
  "stopAgent ''constructor'' no_agents = (no_agents, Throws TypeError)"
  by (simp add: stopAgent_def agents_get_def no_agents_def object_prototype_keys_def)

section \<open>Properties of the request queue\<close>

lemma single_loop_empty: "single_loop empty_queue"
  by (simp add: single_loop_def empty_queue_def)

lemma single_loop_loop_head:
  assumes "loops q = []" "executing q = []" "processing q"
  shows "single_loop (loop_head q)"
  using assms by (auto simp: single_loop_def loop_head_def split: list.splits)

lemma single_loop_add:
  assumes "single_loop q"
  shows "single_loop (add request q)"
proof (cases "processing q")
  case True
  with assms show ?thesis
    by (simp add: add_def processQueue_def single_loop_def)
next
  case False
  with assms have "loops q = []" "executing q = []"
    by (auto simp: single_loop_def)
  with False show ?thesis
    by (simp add: add_def processQueue_def single_loop_loop_head)
qed

lemma single_loop_after_try:
  assumes "loops q = []" "executing q = []" "processing q"
  shows "single_loop (after_try r q)"
  using assms by (simp add: single_loop_def after_try_def)

lemma single_loop_resume:
  assumes "single_loop q" "i < length (loops q)"
  shows "single_loop (resume outcome r i q)"
proof -
  from assms obtain p where l: "loops q = [p]" and i: "i = 0"
    by (cases "loops q") (auto simp: single_loop_def)
  from assms l have pr: "processing q" and ex: "executing q = in_flight p"
    by (auto simp: single_loop_def)
  show ?thesis
  proof (cases p)
    case (AwaitRequest request)
    with l i pr ex show ?thesis
      by (auto simp: resume_def Let_def single_loop_after_try single_loop_def after_try_def)
  next
    case AwaitBackoff
    with l i pr ex show ?thesis
      by (simp add: resume_def single_loop_after_try)
  next
    case AwaitRandomDelay
    with l i pr ex show ?thesis
      by (simp add: resume_def single_loop_loop_head)
  qed
qed

lemma reachable_single_loop: "reachable outcome q \<Longrightarrow> single_loop q"
  by (induction rule: reachable.induct)
     (simp_all add: single_loop_empty single_loop_add single_loop_resume)

text \<open>
  Claim C6. In every state the queue can reach, however the calls of \<open>add\<close> interleave
  with the running loop, at most one thunk has been invoked and not yet settled, and at
  most one \<open>processQueue\<close> call is alive.
\<close>

theorem queue_single_flight:
  "reachable outcome q \<Longrightarrow> length (executing q) \<le> 1 \<and> length (loops q) \<le> 1"
proof -
  assume "reachable outcome q"
  then have s: "single_loop q" by (rule reachable_single_loop)
  then have "length (loops q) \<le> 1" by (simp add: single_loop_def)
  moreover from s have "executing q = concat (map in_flight (loops q))"
    by (simp add: single_loop_def)
  ultimately show ?thesis
    by (cases "loops q"; cases "hd (loops q)") auto
qed

text \<open>
  Two requests added back to back: the first is in flight, the second waits.
\<close>

theorem queue_single_flight_witness:
  "reachable B_fails_twice (add ''B'' (add ''A'' empty_queue)) \<and>
   executing (add ''B'' (add ''A'' empty_queue)) = [Wrapped ''A''] \<and>
   length (executing (add ''B'' (add ''A'' empty_queue))) \<le> 1 \<and>
   length (loops (add ''B'' (add ''A'' empty_queue))) \<le> 1"
proof -
  have r: "reachable B_fails_twice (add ''B'' (add ''A'' empty_queue))"
    by (intro reachable_add reachable_init)
  have e: "executing (add ''B'' (add ''A'' empty_queue)) = [Wrapped ''A'']"
    by (simp add: add_def processQueue_def loop_head_def empty_queue_def)
  from queue_single_flight [OF r] r e show ?thesis by simp
qed

lemma retry_free_loop_head: "retry_free q \<Longrightarrow> retry_free (loop_head q)"
  by (auto simp: retry_free_def loop_head_def split: list.splits)

lemma retry_free_add: "retry_free q \<Longrightarrow> retry_free (add request q)"
proof -
  assume "retry_free q"
  then have "retry_free (q\<lparr>queue := queue q @ [Wrapped request]\<rparr>)"
    by (simp add: retry_free_def)
  then have "retry_free (q\<lparr>queue := queue q @ [Wrapped request], processing := True\<rparr>)"
    by (simp add: retry_free_def)
  then show ?thesis
    using \<open>retry_free (q\<lparr>queue := queue q @ [Wrapped request]\<rparr>)\<close>
    by (simp add: add_def processQueue_def retry_free_loop_head)
qed

lemma list_all_remove_nth:
  "list_all P xs \<Longrightarrow> list_all P (take i xs @ drop (Suc i) xs)"
  by (auto simp: list_all_iff dest: in_set_takeD in_set_dropD)

lemma retry_free_resume:
  assumes "retry_free q"
  shows "retry_free (resume outcome r i q)"
proof (cases "i < length (loops q)")
  case False
  with assms show ?thesis by (simp add: resume_def)
next
  case True
  let ?q0 = "q\<lparr>loops := take i (loops q) @ drop (Suc i) (loops q)\<rparr>"
  from assms have "list_all no_retry_pending (loops q)"
    by (simp add: retry_free_def)
  then have "list_all no_retry_pending (take i (loops q) @ drop (Suc i) (loops q))"
    by (rule list_all_remove_nth)
  with assms have q0: "retry_free ?q0"
    by (simp add: retry_free_def)
  from assms True have p: "no_retry_pending (loops q ! i)"
    by (simp add: retry_free_def list_all_length)
  show ?thesis
  proof (cases "loops q ! i")
    case (AwaitRequest request)
    with p obtain t where "request = Wrapped t" by (cases request) auto
    with True AwaitRequest q0 show ?thesis
      by (simp add: resume_def Let_def after_try_def retry_free_def)
  next
    case AwaitBackoff
    with p show ?thesis by simp
  next
    case AwaitRandomDelay
    with True q0 show ?thesis
      by (simp add: resume_def retry_free_loop_head)
  qed
qed

text \<open>Through \<open>add\<close> the \<open>catch\<close> block of \<open>processQueue\<close> is never entered.\<close>

lemma reachable_retry_free: "reachable outcome q \<Longrightarrow> retry_free q"
proof (induction rule: reachable.induct)
  case reachable_init
  show ?case by (simp add: retry_free_def empty_queue_def)
next
  case (reachable_add q request)
  then show ?case by (simp add: retry_free_add)
next
  case (reachable_resume q i r)
  then show ?case by (simp add: retry_free_resume)
qed

lemma drain_numeral:
  "drain outcome r (numeral v) q =
     (if loops q = [] then q else drain outcome r (pred_numeral v) (resume outcome r 0 q))"
  by (simp add: numeral_eq_Suc)

text \<open>
  Claim C1, at its own scenario. A, B, C are added in this order and B rejects on its
  first two invocations. The wrapper of \<open>add\<close> catches B's rejection and rejects the
  caller's promise, so \<open>processQueue\<close> never reaches its \<open>catch\<close> block: B is invoked
  once and C runs right after B's first failure.
\<close>

theorem queue_failed_task_is_not_retried:
  "trace (drain B_fails_twice r 9 (add ''C'' (add ''B'' (add ''A'' empty_queue)))) =
     [Executed ''A'' True, Resolved ''A'', RandomDelay (r + 1500),
      Executed ''B'' False, Rejected ''B'', RandomDelay (r + 1500),
      Executed ''C'' True, Resolved ''C'', RandomDelay (r + 1500)] \<and>
   loops (drain B_fails_twice r 9 (add ''C'' (add ''B'' (add ''A'' empty_queue)))) = [] \<and>
   queue (drain B_fails_twice r 9 (add ''C'' (add ''B'' (add ''A'' empty_queue)))) = [] \<and>
   attempts (drain B_fails_twice r 9 (add ''C'' (add ''B'' (add ''A'' empty_queue)))) ''B'' = 1"
  by (simp add: drain_numeral add_def processQueue_def loop_head_def empty_queue_def
      resume_def after_try_def randomDelay_def B_fails_twice_def Let_def)

text \<open>
  Claim C2, at two inputs. A request added through \<open>add\<close> that rejects on its first
  invocation is followed by the random inter-task delay only: no backoff, no second
  invocation. And where the \<open>catch\<close> block does run (a thunk that rejects, with two
  more thunks queued), the backoff on the first failure is
  \<open>exponentialBackoff(this.queue.length)\<close>, 8000 ms for a queue of three, not 1000 ms
  for a retry count of zero.
\<close>

theorem queue_backoff_is_not_two_to_the_retry_count:
  "trace (drain B_fails_twice r 3 (add ''B'' empty_queue)) =
     [Executed ''B'' False, Rejected ''B'', RandomDelay (r + 1500)] \<and>
   loops (drain B_fails_twice r 3 (add ''B'' empty_queue)) = [] \<and>
   trace (resume B_fails_twice r 0
     \<lparr>queue = [Wrapped ''C'', Wrapped ''D''], processing = True,
      loops = [AwaitRequest (Bare ''B'')], executing = [Bare ''B''],
      attempts = (\<lambda>t. 0), trace = []\<rparr>) = [Executed ''B'' False, Backoff 8000]"
  by (simp add: drain_numeral add_def processQueue_def loop_head_def empty_queue_def
      resume_def after_try_def randomDelay_def B_fails_twice_def Let_def exponentialBackoff_def)


section \<open>Properties of the scheduling loops\<close>

text \<open>
  Claim C5, for the search loop. With work that takes 130 minutes and a draw of 60
  minutes, the timer is set at time 0, in the turn that invokes the work, and the second
  invocation starts at minute 60 while the first is still running: two invocations are
  in flight.
\<close>

theorem search_loop_overlaps:
  "engageWithSearchTermsLoop (\<lambda>k. 130 * 60 * 1000) (\<lambda>k. 0) (Suc (Suc 0)) 0 0 =
     [(0, WorkStart 0), (7800000, WorkEnd 0), (0, TimerSet 0 3600000),
      (3600000, WorkStart 1), (11400000, WorkEnd 1), (3600000, TimerSet 1 3600000)] \<and>
   running (engageWithSearchTermsLoop (\<lambda>k. 130 * 60 * 1000) (\<lambda>k. 0) (Suc (Suc 0)) 0 0) 3600000 = 2"
  by (simp add: running_def Let_def)

lemma sequential_Nil: "sequential now []"
  by (simp add: sequential_def)

lemma sequential_timer: "sequential now evs \<Longrightarrow> now' \<le> now \<Longrightarrow> sequential now' ((tm, TimerSet k d) # evs)"
  by (auto simp: sequential_def)

lemma sequential_work:
  assumes "sequential fin evs" "now \<le> fin"
  shows "sequential now ((now, WorkStart k) # (fin, WorkEnd k) # evs)"
  unfolding sequential_def
proof (intro allI)
  fix t
  from assms(1) have a: "length (filter (ended t) evs) \<le> length (filter (started t) evs)"
    "length (filter (started t) evs) \<le> Suc (length (filter (ended t) evs))"
    and b: "t < fin \<Longrightarrow> filter (started t) evs = [] \<and> filter (ended t) evs = []"
    by (auto simp: sequential_def)
  show "length (filter (ended t) ((now, WorkStart k) # (fin, WorkEnd k) # evs))
          \<le> length (filter (started t) ((now, WorkStart k) # (fin, WorkEnd k) # evs)) \<and>
        length (filter (started t) ((now, WorkStart k) # (fin, WorkEnd k) # evs))
          \<le> Suc (length (filter (ended t) ((now, WorkStart k) # (fin, WorkEnd k) # evs))) \<and>
        (t < now \<longrightarrow> filter (started t) ((now, WorkStart k) # (fin, WorkEnd k) # evs) = [] \<and>
           filter (ended t) ((now, WorkStart k) # (fin, WorkEnd k) # evs) = [])"
  proof (cases "t < fin")
    case True
    with b assms(2) show ?thesis by auto
  next
    case False
    with a assms(2) show ?thesis by auto
  qed
qed

lemma sequential_mono: "sequential now evs \<Longrightarrow> now' \<le> now \<Longrightarrow> sequential now' evs"
  by (auto simp: sequential_def)

text \<open>The posting loop and the interaction loop never overlap two invocations.\<close>

lemma generateNewTweetLoop_sequential:
  "sequential now (generateNewTweetLoop intervalMin lastPostTimestamp duration rnd n k now)"
proof (induction n arbitrary: k now)
  case 0
  show ?case by (simp add: sequential_Nil)
next
  case (Suc n)
  define delay where "delay = (rnd k + intervalMin) * 60 * 1000"
  define fin where "fin = (if now > lastPostTimestamp k + delay then now + duration k else now)"
  let ?rest = "generateNewTweetLoop intervalMin lastPostTimestamp duration rnd n (Suc k) (fin + delay)"
  have "sequential (fin + delay) ?rest" by (rule Suc.IH)
  then have t: "sequential fin ((fin, TimerSet k delay) # ?rest)"
    by (rule sequential_timer) simp
  have "now \<le> fin" by (simp add: fin_def)
  with t have "sequential now ((now, WorkStart k) # (fin, WorkEnd k) # (fin, TimerSet k delay) # ?rest)"
    by (rule sequential_work)
  with t show ?case
    by (cases "now > lastPostTimestamp k + delay") (simp_all add: Let_def fin_def delay_def)
qed

lemma handleTwitterInteractionsLoop_sequential:
  "sequential now (handleTwitterInteractionsLoop intervalMin duration rnd n k now)"
proof (induction n arbitrary: k now)
  case 0
  show ?case by (simp add: sequential_Nil)
next
  case (Suc n)
  define delay where "delay = (rnd k + intervalMin) * 60 * 1000"
  let ?rest = "handleTwitterInteractionsLoop intervalMin duration rnd n (Suc k)
                 (now + delay + duration k)"
  have "sequential (now + delay + duration k) ?rest" by (rule Suc.IH)
  then have "sequential (now + delay)
      ((now + delay, WorkStart k) # (now + delay + duration k, WorkEnd k) # ?rest)"
    by (rule sequential_work) simp
  then have "sequential now ((now, TimerSet k delay) # (now + delay, WorkStart k)
      # (now + delay + duration k, WorkEnd k) # ?rest)"
    by (rule sequential_timer) simp
  then show ?case
    by (simp add: Let_def delay_def)
qed

lemma sequential_running:
  assumes "sequential now evs"
  shows "running evs t \<le> 1"
proof -
  from assms have "length (filter (started t) evs) \<le> Suc (length (filter (ended t) evs))"
    by (simp add: sequential_def)
  then show ?thesis by (simp add: running_def)
qed


end
